theory Spec2Isabelle
  imports Complex_Main
begin

section \<open>The wall follower of HW4/wall\_follower.py\<close>

text \<open>
  The program keeps one \<open>TurtlebotState\<close> object, fed by two sensor handlers, and a
  family of behaviour objects (\<open>Turn\<close>, \<open>Drive\<close>, \<open>TurnToObject\<close>, \<open>FollowObject\<close>,
  \<open>WallFollow\<close>) that all hold a reference to that one state. Python floats are read as
  \<^typ>\<open>real\<close>; rounding is not modelled. An attribute that has not been assigned yet, and
  an attribute holding Python's \<open>None\<close>, is \<^term>\<open>None\<close>; reading it in arithmetic raises.
\<close>

subsection \<open>Errors and messages\<close>

datatype pyerror = ValueError | AttributeError | TypeError

text \<open>\<open>geometry_msgs/Twist\<close>: \<open>Twist()\<close> is the message with all six components zero.\<close>

record Twist =
  linear_x :: real
  linear_y :: real
  linear_z :: real
  angular_x :: real
  angular_y :: real
  angular_z :: real

definition Twist0 :: Twist where
  "Twist0 = \<lparr>linear_x = 0, linear_y = 0, linear_z = 0,
             angular_x = 0, angular_y = 0, angular_z = 0\<rparr>"

text \<open>The part of \<open>nav_msgs/Odometry\<close> the handler reads.\<close>

record Odometry =
  orientation_x :: real
  orientation_y :: real
  orientation_z :: real
  orientation_w :: real
  position_x :: real
  position_y :: real

subsection \<open>Nearest-point search\<close>

text \<open>
  Python's \<open>min\<close> over a generator: \<open>ValueError\<close> on an empty sequence, otherwise a
  left-to-right scan that replaces the running value by a strictly smaller item.
\<close>

fun py_min :: "real list \<Rightarrow> pyerror + real" where
  "py_min [] = Inl ValueError"
| "py_min (x # xs) = Inr (foldl (\<lambda>cur item. if item < cur then item else cur) x xs)"

text \<open>\<open>list.index(v)\<close>: the first position holding \<open>v\<close>, \<open>ValueError\<close> when there is none.\<close>

fun py_index :: "real list \<Rightarrow> real \<Rightarrow> pyerror + nat" where
  "py_index [] v = Inl ValueError"
| "py_index (x # xs) v =
     (if x = v then Inr 0
      else (case py_index xs v of Inl e \<Rightarrow> Inl e | Inr i \<Rightarrow> Inr (Suc i)))"

text \<open>The slice \<open>array[lo:hi]\<close> for \<open>0 \<le> lo \<le> hi\<close>; Python truncates it at the end of the list.\<close>

definition slice :: "nat \<Rightarrow> nat \<Rightarrow> 'a list \<Rightarrow> 'a list" where
  "slice lo hi array = drop lo (take hi array)"

definition findObj360 :: "real list \<Rightarrow> pyerror + (nat \<times> real)" where
  "findObj360 array =
     (case py_min (filter (\<lambda>i. i > 0.0) array) of
        Inl e \<Rightarrow> Inl e
      | Inr temp \<Rightarrow>
          (case py_index array temp of
             Inl e \<Rightarrow> Inl e
           | Inr k \<Rightarrow> Inr (k, temp)))"

definition findObjFront :: "real list \<Rightarrow> pyerror + (nat \<times> real)" where
  "findObjFront array =
     (case py_min (filter (\<lambda>i. i > 0.0) (slice 0 45 array)) of
        Inl e \<Rightarrow> Inl e
      | Inr temp \<Rightarrow>
          (case py_min (filter (\<lambda>i. i > 0.0) (slice 315 360 array)) of
             Inl e \<Rightarrow> Inl e
           | Inr temp2 \<Rightarrow>
               if temp \<le> temp2 then
                 (case py_index (slice 0 45 array) temp of
                    Inl e \<Rightarrow> Inl e
                  | Inr k \<Rightarrow> Inr (k, temp))
               else
                 (case py_index (slice 315 360 array) temp2 of
                    Inl e \<Rightarrow> Inl e
                  | Inr k \<Rightarrow> Inr (k + 315, temp2))))"

subsection \<open>Behaviour objects and the shared state\<close>

text \<open>
  Every behaviour class has its own attributes and a \<open>done\<close> flag, here \<open>done_flag\<close>;
  the sequencer reads \<open>state.current_action.done\<close> whatever the class is. The
  \<open>self.state\<close> attribute always points to the one state object and is left implicit.
\<close>

datatype action =
    Turn (clockwise: bool) (target_angle: real) (done_flag: bool)
  | Drive (init_x: "real option") (init_y: "real option") (forward: bool)
      (target_distance: real) (done_flag: bool)
  | TurnToObject (done_flag: bool)
  | FollowObject (lower_bound: real) (upper_bound: real) (angle_err_lim: real)
      (clockwise: bool) (target_angle: real) (done_flag: bool)
  | WallFollow (lower_bound: real) (upper_bound: real) (angle_err_lim: real)
      (clockwise: bool) (target_angle: real) (done_flag: bool)

text \<open>The assignment \<open>self.done = True\<close>, for an object of any of the five classes.\<close>

fun set_done :: "action \<Rightarrow> action" where
  "set_done (Turn cw ta d) = Turn cw ta True"
| "set_done (Drive ix iy fw td d) = Drive ix iy fw td True"
| "set_done (TurnToObject d) = TurnToObject True"
| "set_done (FollowObject lo hi tol cw ta d) = FollowObject lo hi tol cw ta True"
| "set_done (WallFollow lo hi tol cw ta d) = WallFollow lo hi tol cw ta True"

type_synonym ref = nat

text \<open>
  The state object. \<open>state_x\<close> and \<open>state_y\<close> are the attributes \<open>x\<close> and \<open>y\<close>;
  \<open>cmd_vel\<close> is the sequence of messages published on the topic so far, oldest first;
  \<open>current_action\<close> is a reference into the object store.
\<close>

record TurtlebotState =
  angle :: "real option"
  state_x :: "real option"
  state_y :: "real option"
  ready :: bool
  current_action :: "ref option"
  meter :: bool
  closest_obj_ang :: "real option"
  closest_obj_front :: "(nat \<times> real) option"
  closest_obj_front_ang :: "real option"
  closest_obj_front_dist :: "real option"
  cmd_vel :: "Twist list"

text \<open>
  The state together with the behaviour objects allocated so far: object \<open>r\<close> is
  \<open>heap ! r\<close>, and a new object gets the reference \<open>length heap\<close>.
\<close>

record world = TurtlebotState +
  heap :: "action list"

text \<open>The attributes as \<open>TurtlebotState.__init__\<close> leaves them, before any message arrives.\<close>

definition TurtlebotState_init :: world where
  "TurtlebotState_init =
     \<lparr>angle = None, state_x = None, state_y = None, ready = False,
      current_action = None, meter = False, closest_obj_ang = None,
      closest_obj_front = None, closest_obj_front_ang = None,
      closest_obj_front_dist = None, cmd_vel = [], heap = []\<rparr>"

definition publish :: "Twist \<Rightarrow> world \<Rightarrow> world" where
  "publish msg w = w\<lparr>cmd_vel := cmd_vel w @ [msg]\<rparr>"

definition mark_done :: "ref \<Rightarrow> world \<Rightarrow> world" where
  "mark_done self w = w\<lparr>heap := (heap w)[self := set_done (heap w ! self)]\<rparr>"

definition alloc :: "action \<Rightarrow> world \<Rightarrow> ref \<times> world" where
  "alloc obj w = (length (heap w), w\<lparr>heap := heap w @ [obj]\<rparr>)"

subsection \<open>Sensor handlers\<close>

text \<open>
  \<open>euler_from_quaternion\<close> (library \<open>tf\<close>) and \<open>degrees_to_radians\<close> (module \<open>angles\<close>)
  are not part of the file; the handlers take them as parameters.
\<close>

definition yaw_from_odom :: "(real list \<Rightarrow> real \<times> real \<times> real) \<Rightarrow> Odometry \<Rightarrow> real" where
  "yaw_from_odom euler_from_quaternion msg =
     (let orientation_vec = [orientation_x msg, orientation_y msg,
                             orientation_z msg, orientation_w msg];
          (roll, pitch, yaw) = euler_from_quaternion orientation_vec
      in yaw)"

definition update_odom ::
  "(real list \<Rightarrow> real \<times> real \<times> real) \<Rightarrow> Odometry \<Rightarrow> world \<Rightarrow> world" where
  "update_odom euler_from_quaternion msg w =
     w\<lparr>angle := Some (yaw_from_odom euler_from_quaternion msg),
       state_x := Some (position_x msg),
       state_y := Some (position_y msg),
       ready := True\<rparr>"

text \<open>
  \<open>update_scan\<close> assigns four attributes one after the other and then \<open>ready\<close>. An
  exception of a search leaves the assignments made before it in place, so the handler
  returns the state it reached together with the exception, if any.
\<close>

definition update_scan ::
  "(real \<Rightarrow> real) \<Rightarrow> real list \<Rightarrow> world \<Rightarrow> pyerror option \<times> world" where
  "update_scan degrees_to_radians ranges w =
     (case findObj360 ranges of
        Inl e \<Rightarrow> (Some e, w)
      | Inr r360 \<Rightarrow>
          let w1 = w\<lparr>closest_obj_ang := Some (degrees_to_radians (real (fst r360)))\<rparr> in
          (case findObjFront ranges of
             Inl e \<Rightarrow> (Some e, w1)
           | Inr rf \<Rightarrow>
               (None, w1\<lparr>closest_obj_front := Some rf,
                         closest_obj_front_ang := Some (degrees_to_radians (real (fst rf))),
                         closest_obj_front_dist := Some (snd rf),
                         ready := True\<rparr>)))"

subsection \<open>Constructors\<close>

text \<open>
  \<open>rectify_angle_pi\<close> (module \<open>angles\<close>) and \<open>euclidian_distance\<close> (module \<open>distances\<close>)
  are not part of the file either and are parameters; they are taken to return for
  every numeric argument. A constructor returns the new object; the caller stores it.
\<close>

definition Turn_init :: "(real \<Rightarrow> real) \<Rightarrow> world \<Rightarrow> real \<Rightarrow> pyerror + action" where
  "Turn_init rectify_angle_pi state ang =
     (let cw = (if ang \<ge> 0 then False else True) in
      case angle state of
        None \<Rightarrow> Inl TypeError
      | Some a \<Rightarrow> Inr (Turn cw (rectify_angle_pi (a + ang)) False))"

definition Drive_init :: "world \<Rightarrow> real \<Rightarrow> action" where
  "Drive_init state distance =
     Drive (state_x state) (state_y state)
       (if distance \<ge> 0 then True else False) \<bar>distance\<bar> False"

definition TurnToObject_init :: "world \<Rightarrow> action" where
  "TurnToObject_init state = TurnToObject False"

definition FollowObject_init :: "(real \<Rightarrow> real) \<Rightarrow> world \<Rightarrow> pyerror + action" where
  "FollowObject_init rectify_angle_pi state =
     (case closest_obj_front_ang state of
        None \<Rightarrow> Inl AttributeError
      | Some front_ang \<Rightarrow>
          let goal_angle = rectify_angle_pi front_ang;
              cw = (if goal_angle \<ge> 0 then False else True) in
          (case angle state of
             None \<Rightarrow> Inl TypeError
           | Some a \<Rightarrow>
               Inr (FollowObject 0.4 0.6 0.04 cw (rectify_angle_pi (a + goal_angle)) False)))"

definition WallFollow_init :: "(real \<Rightarrow> real) \<Rightarrow> world \<Rightarrow> pyerror + action" where
  "WallFollow_init rectify_angle_pi state =
     (case closest_obj_front_ang state of
        None \<Rightarrow> Inl AttributeError
      | Some front_ang \<Rightarrow>
          let goal_angle = rectify_angle_pi front_ang;
              cw = (if goal_angle \<ge> 0 then False else True) in
          (case angle state of
             None \<Rightarrow> Inl TypeError
           | Some a \<Rightarrow>
               Inr (WallFollow 0.9 1.1 0.04 cw (rectify_angle_pi (a + goal_angle)) False)))"

subsection \<open>The \<open>act\<close> methods\<close>

text \<open>
  \<open>self\<close> is the reference of the object the method is called on; its attributes are
  read from the store and \<open>self.done = True\<close> is written back there. Logging is left out,
  except where the logged expression can raise.
\<close>

definition Turn_act :: "ref \<Rightarrow> world \<Rightarrow> pyerror + world" where
  "Turn_act self w =
     (case angle w of
        None \<Rightarrow> Inl TypeError
      | Some a \<Rightarrow>
          let error = \<bar>target_angle (heap w ! self) - a\<bar> in
          if error > 0.02 then
            let move_cmd =
                  (if clockwise (heap w ! self) then Twist0\<lparr>angular_z := - 0.2\<rparr>
                   else Twist0\<lparr>angular_z := 0.2\<rparr>)
            in Inr (publish move_cmd w)
          else Inr (mark_done self (publish Twist0 w)))"

definition Drive_act ::
  "(real \<Rightarrow> real \<Rightarrow> real \<Rightarrow> real \<Rightarrow> real) \<Rightarrow> ref \<Rightarrow> world \<Rightarrow> pyerror + world" where
  "Drive_act euclidian_distance self w =
     (case (init_x (heap w ! self), state_x w, init_y (heap w ! self), state_y w) of
        (Some ix, Some sx, Some iy, Some sy) \<Rightarrow>
          let error = \<bar>target_distance (heap w ! self) - euclidian_distance ix sx iy sy\<bar> in
          if error > 0.02 then
            let move_cmd =
                  (if forward (heap w ! self) then Twist0\<lparr>linear_x := 0.2\<rparr>
                   else Twist0\<lparr>linear_x := - 0.2\<rparr>)
            in Inr (publish move_cmd w)
          else Inr (mark_done self (publish Twist0 w))
      | _ \<Rightarrow> Inl TypeError)"

definition TurnToObject_act :: "(real \<Rightarrow> real) \<Rightarrow> ref \<Rightarrow> world \<Rightarrow> pyerror + world" where
  "TurnToObject_act rectify_angle_pi self w =
     (case closest_obj_ang w of
        None \<Rightarrow> Inl AttributeError
      | Some obj_ang \<Rightarrow>
          let goal = rectify_angle_pi obj_ang in
          (case closest_obj_front_ang w of
             None \<Rightarrow> Inl AttributeError
           | Some front_ang \<Rightarrow>
               (case Turn_init rectify_angle_pi w goal of
                  Inl e \<Rightarrow> Inl e
                | Inr turn \<Rightarrow>
                    let (r, w1) = alloc turn w;
                        w2 = w1\<lparr>current_action := Some r\<rparr>
                    in Inr (mark_done self w2))))"

text \<open>
  The control law shared by \<open>FollowObject.act\<close> and \<open>WallFollow.act\<close>: the message
  \<open>move_cmd\<close> built from the angular error and the forward distance.
\<close>

definition follow_cmd :: "action \<Rightarrow> real \<Rightarrow> real \<Rightarrow> Twist" where
  "follow_cmd obj error front_dist =
     (let ang_z = (if error > angle_err_lim obj
                   then (if clockwise obj then - 0.4 else 0.4) else 0);
          lin_x = (if front_dist > upper_bound obj \<or> front_dist < lower_bound obj
                   then (if front_dist - 0.5 > 0 then 0.15 else - 0.15) else 0)
      in Twist0\<lparr>linear_x := lin_x, angular_z := ang_z\<rparr>)"

definition FollowObject_act :: "(real \<Rightarrow> real) \<Rightarrow> ref \<Rightarrow> world \<Rightarrow> pyerror + world" where
  "FollowObject_act rectify_angle_pi self w =
     (case closest_obj_front_ang w of
        None \<Rightarrow> Inl AttributeError
      | Some front_ang \<Rightarrow>
          let goal = rectify_angle_pi front_ang in
          (case angle w of
             None \<Rightarrow> Inl TypeError
           | Some a \<Rightarrow>
               let error = \<bar>target_angle (heap w ! self) - a\<bar> in
               (case closest_obj_front_dist w of
                  None \<Rightarrow> Inl AttributeError
                | Some front_dist \<Rightarrow>
                    let w1 = publish (follow_cmd (heap w ! self) error front_dist) w;
                        w2 = (if error \<le> angle_err_lim (heap w ! self) \<and>
                                 (front_dist \<le> upper_bound (heap w ! self) \<and>
                                  front_dist \<ge> lower_bound (heap w ! self))
                              then publish Twist0 w1 else w1)
                    in Inr (mark_done self w2))))"

definition WallFollow_act :: "(real \<Rightarrow> real) \<Rightarrow> ref \<Rightarrow> world \<Rightarrow> pyerror + world" where
  "WallFollow_act rectify_angle_pi self w =
     (case closest_obj_front_ang w of
        None \<Rightarrow> Inl AttributeError
      | Some front_ang \<Rightarrow>
          let goal = rectify_angle_pi front_ang in
          (case angle w of
             None \<Rightarrow> Inl TypeError
           | Some a \<Rightarrow>
               let error = \<bar>target_angle (heap w ! self) - a\<bar> in
               (case closest_obj_front_dist w of
                  None \<Rightarrow> Inl AttributeError
                | Some front_dist \<Rightarrow>
                    let w1 = publish (follow_cmd (heap w ! self) error front_dist) w;
                        w2 = (if error \<le> angle_err_lim (heap w ! self) \<and>
                                 (front_dist \<le> upper_bound (heap w ! self) \<and>
                                  front_dist \<ge> lower_bound (heap w ! self))
                              then (publish Twist0 w1)\<lparr>meter := True\<rparr> else w1)
                    in Inr (mark_done self w2))))"

text \<open>\<open>obj.act()\<close>: the method of the class of the object behind the reference.\<close>

definition act ::
  "(real \<Rightarrow> real) \<Rightarrow> (real \<Rightarrow> real \<Rightarrow> real \<Rightarrow> real \<Rightarrow> real) \<Rightarrow> ref \<Rightarrow> world \<Rightarrow> pyerror + world" where
  "act rectify_angle_pi euclidian_distance self w =
     (case heap w ! self of
        Turn _ _ _ \<Rightarrow> Turn_act self w
      | Drive _ _ _ _ _ \<Rightarrow> Drive_act euclidian_distance self w
      | TurnToObject _ \<Rightarrow> TurnToObject_act rectify_angle_pi self w
      | FollowObject _ _ _ _ _ _ \<Rightarrow> FollowObject_act rectify_angle_pi self w
      | WallFollow _ _ _ _ _ _ \<Rightarrow> WallFollow_act rectify_angle_pi self w)"

subsection \<open>One iteration of the sequencer's loops\<close>

text \<open>
  \<open>main\<close> runs six loops \<open>while not rospy.is_shutdown(): ...; rate.sleep()\<close>. Each
  function below is the body of one of them, run once: it returns whether the loop
  goes on or breaks, and the state it leaves.
\<close>

datatype loop_ctl = Continue | Break

text \<open>The assignment \<open>state.current_action = obj\<close> for a newly constructed \<open>obj\<close>.\<close>

definition install :: "action \<Rightarrow> world \<Rightarrow> world" where
  "install obj w = (let (r, w1) = alloc obj w in w1\<lparr>current_action := Some r\<rparr>)"

text \<open>The loops after \<open>TurnToObject\<close>, \<open>Turn\<close> and \<open>Drive\<close> are installed: step until done.\<close>

definition tick_until_done ::
  "(real \<Rightarrow> real) \<Rightarrow> (real \<Rightarrow> real \<Rightarrow> real \<Rightarrow> real \<Rightarrow> real) \<Rightarrow> world \<Rightarrow> pyerror + (loop_ctl \<times> world)" where
  "tick_until_done rectify_angle_pi euclidian_distance w =
     (case current_action w of
        None \<Rightarrow> Inl AttributeError
      | Some r \<Rightarrow>
          if \<not> done_flag (heap w ! r) then
            (case act rectify_angle_pi euclidian_distance r w of
               Inl e \<Rightarrow> Inl e
             | Inr w' \<Rightarrow> Inr (Continue, w'))
          else Inr (Break, w))"

text \<open>The loop after \<open>FollowObject\<close> is installed (lines 339 to 344): it has no \<open>break\<close>.\<close>

definition tick_follow_object ::
  "(real \<Rightarrow> real) \<Rightarrow> (real \<Rightarrow> real \<Rightarrow> real \<Rightarrow> real \<Rightarrow> real) \<Rightarrow> world \<Rightarrow> pyerror + (loop_ctl \<times> world)" where
  "tick_follow_object rectify_angle_pi euclidian_distance w =
     (case current_action w of
        None \<Rightarrow> Inl AttributeError
      | Some r \<Rightarrow>
          if \<not> done_flag (heap w ! r) then
            (case act rectify_angle_pi euclidian_distance r w of
               Inl e \<Rightarrow> Inl e
             | Inr w' \<Rightarrow> Inr (Continue, w'))
          else
            (case WallFollow_init rectify_angle_pi w of
               Inl e \<Rightarrow> Inl e
             | Inr obj \<Rightarrow> Inr (Continue, install obj w)))"

text \<open>The loop after \<open>WallFollow\<close> is installed (lines 360 to 368).\<close>

definition tick_wall_follow ::
  "(real \<Rightarrow> real) \<Rightarrow> (real \<Rightarrow> real \<Rightarrow> real \<Rightarrow> real \<Rightarrow> real) \<Rightarrow> world \<Rightarrow> pyerror + (loop_ctl \<times> world)" where
  "tick_wall_follow rectify_angle_pi euclidian_distance w =
     (case current_action w of
        None \<Rightarrow> Inl AttributeError
      | Some r \<Rightarrow>
          if \<not> done_flag (heap w ! r) then
            (case act rectify_angle_pi euclidian_distance r w of
               Inl e \<Rightarrow> Inl e
             | Inr w' \<Rightarrow> Inr (Continue, w'))
          else if meter w = True then Inr (Break, w)
          else
            (case WallFollow_init rectify_angle_pi w of
               Inl e \<Rightarrow> Inl e
             | Inr obj \<Rightarrow> Inr (Continue, install obj w)))"

section \<open>Properties\<close>

subsection \<open>Store and publisher\<close>

lemma mark_done_simps:
  "cmd_vel (mark_done self w) = cmd_vel w"
  "current_action (mark_done self w) = current_action w"
  "meter (mark_done self w) = meter w"
  "ready (mark_done self w) = ready w"
  "angle (mark_done self w) = angle w"
  "length (heap (mark_done self w)) = length (heap w)"
  by (simp_all add: mark_done_def)

lemma mark_done_heap:
  "self < length (heap w) \<Longrightarrow> heap (mark_done self w) ! self = set_done (heap w ! self)"
  by (simp add: mark_done_def)

lemma done_set_done: "done_flag (set_done obj)"
  by (cases obj) simp_all

lemma publish_simps:
  "cmd_vel (publish msg w) = cmd_vel w @ [msg]"
  "current_action (publish msg w) = current_action w"
  "meter (publish msg w) = meter w"
  "heap (publish msg w) = heap w"
  "angle (publish msg w) = angle w"
  by (simp_all add: publish_def)

lemma mark_done_sensed:
  "closest_obj_ang (mark_done self w) = closest_obj_ang w"
  "closest_obj_front_ang (mark_done self w) = closest_obj_front_ang w"
  "closest_obj_front_dist (mark_done self w) = closest_obj_front_dist w"
  by (simp_all add: mark_done_def)

lemma publish_sensed:
  "closest_obj_ang (publish msg w) = closest_obj_ang w"
  "closest_obj_front_ang (publish msg w) = closest_obj_front_ang w"
  "closest_obj_front_dist (publish msg w) = closest_obj_front_dist w"
  by (simp_all add: publish_def)

subsection \<open>The direction flag of \<open>Turn\<close>\<close>

text \<open>
  What the constructor computes: the flag is true exactly when the delta is negative.
\<close>

lemma Turn_init_flag:
  "Turn_init rectify st delta = Inr t \<Longrightarrow> clockwise t = (delta < 0)"
  by (auto simp: Turn_init_def split: option.splits if_splits)

text \<open>
  Claim C1 (\<open>clockwise = (targetDelta \<ge> 0)\<close>) at heading 0 and delta \<open>+1\<close>. The docstring
  of the class says that a positive angle turns the robot clockwise. The constructor
  returns an object whose \<open>clockwise\<close> flag is false although the delta is non-negative,
  and the step of that object publishes the angular velocity \<open>+0.2\<close>, the one \<open>Turn.act\<close>
  uses when the flag is not set.
\<close>

theorem Turn_init_positive_delta:
  "Turn_init id (TurtlebotState_init\<lparr>angle := Some 0\<rparr>) 1 = Inr (Turn False 1 False)
   \<and> clockwise (Turn False 1 False) \<noteq> ((1 :: real) \<ge> 0)
   \<and> Turn_act 0 (TurtlebotState_init\<lparr>angle := Some 0, heap := [Turn False 1 False]\<rparr>)
       = Inr (TurtlebotState_init\<lparr>angle := Some 0, heap := [Turn False 1 False],
                cmd_vel := [Twist0\<lparr>angular_z := 0.2\<rparr>]\<rparr>)"
  by (simp add: Turn_init_def Turn_act_def publish_def TurtlebotState_init_def)

subsection \<open>Readiness\<close>

text \<open>
  Claim C2, as the code has it: each handler sets \<open>ready\<close> on its own. A pose update
  always leaves \<open>ready\<close> true, and a scan update that raises nothing leaves \<open>ready\<close>
  true, whatever the other feed has delivered.
\<close>

theorem ready_after_one_feed:
  "ready (update_odom euler msg w) \<and>
   (fst (update_scan deg ranges w) = None \<longrightarrow> ready (snd (update_scan deg ranges w)))"
  by (auto simp: update_odom_def update_scan_def Let_def split: sum.splits)

theorem ready_after_one_feed_witness:
  "ready (update_odom (\<lambda>q. (0, 0, 0))
     \<lparr>orientation_x = 0, orientation_y = 0, orientation_z = 0,
      orientation_w = 1, position_x = 0, position_y = 0\<rparr> TurtlebotState_init)
   \<and> fst (update_scan (\<lambda>d. d * pi / 180) (replicate 360 1) TurtlebotState_init) = None
   \<and> ready (snd (update_scan (\<lambda>d. d * pi / 180) (replicate 360 1) TurtlebotState_init))"
proof -
  have a: "findObj360 (replicate 360 1) = Inr (0, 1)" by code_simp
  have b: "findObjFront (replicate 360 1) = Inr (0, 1)" by code_simp
  have h: "fst (update_scan (\<lambda>d. d * pi / 180) (replicate 360 1) TurtlebotState_init) = None"
    by (simp add: update_scan_def a b)
  show ?thesis
    using h ready_after_one_feed
      [of "\<lambda>q. (0, 0, 0)" _ TurtlebotState_init "\<lambda>d. d * pi / 180" "replicate 360 1"]
    by simp
qed

text \<open>
  From the freshly constructed state, where \<open>ready\<close> is false, one pose update alone
  sets \<open>ready\<close>, and so does one scan update alone.
\<close>

theorem ready_counterexample:
  "\<not> ready TurtlebotState_init
   \<and> ready (update_odom (\<lambda>q. (0, 0, 0))
       \<lparr>orientation_x = 0, orientation_y = 0, orientation_z = 0,
        orientation_w = 1, position_x = 0, position_y = 0\<rparr> TurtlebotState_init)
   \<and> ready (snd (update_scan (\<lambda>d. d * pi / 180) (replicate 360 1) TurtlebotState_init))"
proof -
  have a: "findObj360 (replicate 360 1) = Inr (0, 1)" by code_simp
  have b: "findObjFront (replicate 360 1) = Inr (0, 1)" by code_simp
  show ?thesis
    by (simp add: update_odom_def update_scan_def a b TurtlebotState_init_def)
qed

subsection \<open>One step of \<open>Turn\<close>\<close>

text \<open>
  Claim C4: a step of a \<open>Turn\<close> object that is not done, with the heading known. When
  the error \<open>\<bar>target_angle - angle\<bar>\<close> exceeds 0.02 the step publishes one message with
  angular velocity \<open>-0.2\<close> (flag clockwise) or \<open>0.2\<close> and every other component zero, and
  \<open>done\<close> stays false; otherwise it publishes the zero message and sets \<open>done\<close>. So
  \<open>done\<close> holds after the step exactly when the error is at most 0.02.
\<close>

theorem Turn_act_step:
  assumes "self < length (heap w)"
    and "heap w ! self = Turn cw ta False"
    and "angle w = Some a"
  shows "\<exists>w'. Turn_act self w = Inr w' \<and>
      (if \<bar>ta - a\<bar> > 0.02
       then cmd_vel w' = cmd_vel w @ [Twist0\<lparr>angular_z := (if cw then - 0.2 else 0.2)\<rparr>]
            \<and> done_flag (heap w' ! self) = False
       else cmd_vel w' = cmd_vel w @ [Twist0] \<and> done_flag (heap w' ! self) = True)
      \<and> (done_flag (heap w' ! self) \<longleftrightarrow> \<bar>ta - a\<bar> \<le> 0.02)"
  using assms
  by (auto simp: Turn_act_def Let_def publish_simps mark_done_simps mark_done_heap)

theorem Turn_act_step_witness:
  "(0::nat) < length (heap (TurtlebotState_init\<lparr>angle := Some 0, heap := [Turn True 1 False]\<rparr>))
   \<and> heap (TurtlebotState_init\<lparr>angle := Some 0, heap := [Turn True 1 False]\<rparr>) ! 0
       = Turn True 1 False
   \<and> angle (TurtlebotState_init\<lparr>angle := Some 0, heap := [Turn True 1 False]\<rparr>) = Some 0
   \<and> (\<exists>w'. Turn_act 0 (TurtlebotState_init\<lparr>angle := Some 0, heap := [Turn True 1 False]\<rparr>)
             = Inr w'
          \<and> cmd_vel w' = [Twist0\<lparr>angular_z := - 0.2\<rparr>] \<and> \<not> done_flag (heap w' ! 0))"
proof -
  let ?w = "TurtlebotState_init\<lparr>angle := Some 0, heap := [Turn True 1 False]\<rparr>"
  have h1: "(0::nat) < length (heap ?w)" by simp
  have h2: "heap ?w ! 0 = Turn True 1 False" by simp
  have h3: "angle ?w = Some 0" by simp
  have c: "cmd_vel ?w = []" by (simp add: TurtlebotState_init_def)
  from Turn_act_step [OF h1 h2 h3] obtain w' where
    "Turn_act 0 ?w = Inr w'" "cmd_vel w' = [Twist0\<lparr>angular_z := - 0.2\<rparr>]"
    "\<not> done_flag (heap w' ! 0)"
    by (auto simp: c)
  with h1 h2 h3 show ?thesis by blast
qed

subsection \<open>The error of \<open>Turn\<close> across the wrap\<close>

text \<open>
  Claim C5: there are a heading and a target angle, both in \<open>(-\<pi>, \<pi>]\<close>, at wrapped
  distance at most 0.02 from each other, for which the unwrapped error exceeds 0.02, so
  that the step of the \<open>Turn\<close> object leaves \<open>done\<close> false and publishes a rotation
  command. The heading is \<open>\<pi> - 0.005\<close>, the target \<open>-\<pi> + 0.005\<close>.
\<close>

theorem Turn_act_wrap:
  "\<exists>h ta. - pi < h \<and> h \<le> pi \<and> - pi < ta \<and> ta \<le> pi
     \<and> min \<bar>ta - h\<bar> (2 * pi - \<bar>ta - h\<bar>) \<le> 0.02
     \<and> \<bar>ta - h\<bar> > 0.02
     \<and> (\<exists>w'. Turn_act 0 (TurtlebotState_init\<lparr>angle := Some h, heap := [Turn False ta False]\<rparr>)
               = Inr w'
           \<and> \<not> done_flag (heap w' ! 0)
           \<and> cmd_vel w' = [Twist0\<lparr>angular_z := 0.2\<rparr>])"
proof -
  have p: "2 \<le> pi" by (rule pi_ge_two)
  let ?h = "pi - 0.005" and ?ta = "- pi + 0.005"
  have d: "\<bar>?ta - ?h\<bar> = 2 * pi - 0.01" using p by simp
  have far: "\<bar>?ta - ?h\<bar> > 0.02" using p unfolding d by simp
  moreover have "min \<bar>?ta - ?h\<bar> (2 * pi - \<bar>?ta - ?h\<bar>) \<le> 0.02"
    unfolding d using p by (simp add: min_def)
  moreover have "- pi < ?h" "?h \<le> pi" "- pi < ?ta" "?ta \<le> pi" using p by simp_all
  moreover have "\<exists>w'. Turn_act 0
        (TurtlebotState_init\<lparr>angle := Some ?h, heap := [Turn False ?ta False]\<rparr>) = Inr w'
      \<and> \<not> done_flag (heap w' ! 0) \<and> cmd_vel w' = [Twist0\<lparr>angular_z := 0.2\<rparr>]"
    using far by (simp add: Turn_act_def Let_def publish_def TurtlebotState_init_def)
  ultimately show ?thesis by blast
qed

subsection \<open>\<open>FollowObject\<close> is done after every step\<close>

text \<open>
  Claim C6: for every \<open>FollowObject\<close> object and every state in which the heading and the
  forward-cone bearing and distance have been received (no \<open>FollowObject\<close> can be
  constructed before that, and the attributes are never cleared), the step returns and
  leaves \<open>done\<close> true, whatever the angular error and the distance are. When the object is
  the active behaviour and was not done, the loop of \<open>main\<close> therefore runs that one step
  and on its next iteration installs a \<open>WallFollow\<close>.
\<close>

theorem FollowObject_act_done:
  assumes "self < length (heap w)"
    and "heap w ! self = FollowObject lo hi tol cw ta d"
    and "angle w = Some a"
    and "closest_obj_front_ang w = Some fa"
    and "closest_obj_front_dist w = Some fd"
  shows "\<exists>w'. FollowObject_act rectify self w = Inr w' \<and> done_flag (heap w' ! self)
           \<and> current_action w' = current_action w
           \<and> (current_action w = Some self \<and> \<not> d \<longrightarrow>
                tick_follow_object rectify euclid w = Inr (Continue, w')
                \<and> (\<exists>obj. WallFollow_init rectify w' = Inr obj
                      \<and> tick_follow_object rectify euclid w' = Inr (Continue, install obj w')))"
proof -
  obtain w' where w': "FollowObject_act rectify self w = Inr w'"
    using assms by (simp add: FollowObject_act_def Let_def)
  have dn: "done_flag (heap w' ! self)" and ca: "current_action w' = current_action w"
    and ang: "angle w' = Some a" and fang: "closest_obj_front_ang w' = Some fa"
    using assms w'
    by (auto simp: FollowObject_act_def Let_def publish_simps publish_sensed
        mark_done_simps mark_done_sensed mark_done_heap done_set_done split: if_splits)
  have t1: "tick_follow_object rectify euclid w = Inr (Continue, w')"
    if "current_action w = Some self" "\<not> d"
    using that assms(2) w' by (simp add: tick_follow_object_def act_def)
  obtain obj where obj: "WallFollow_init rectify w' = Inr obj"
    using ang fang by (simp add: WallFollow_init_def Let_def)
  have t2: "tick_follow_object rectify euclid w' = Inr (Continue, install obj w')"
    if "current_action w = Some self"
    using that ca dn obj by (simp add: tick_follow_object_def)
  from w' dn ca t1 t2 obj show ?thesis by blast
qed

theorem FollowObject_act_done_witness:
  "\<exists>w'. FollowObject_act id 0
      (TurtlebotState_init\<lparr>angle := Some 0, current_action := Some 0,
         closest_obj_front_ang := Some 0, closest_obj_front_dist := Some 2,
         heap := [FollowObject 0.4 0.6 0.04 False 1 False]\<rparr>) = Inr w'
     \<and> done_flag (heap w' ! 0)
     \<and> tick_follow_object id (\<lambda>x1 x2 y1 y2. \<bar>x2 - x1\<bar> + \<bar>y2 - y1\<bar>)
          (TurtlebotState_init\<lparr>angle := Some 0, current_action := Some 0,
             closest_obj_front_ang := Some 0, closest_obj_front_dist := Some 2,
             heap := [FollowObject 0.4 0.6 0.04 False 1 False]\<rparr>) = Inr (Continue, w')"
proof -
  let ?w = "TurtlebotState_init\<lparr>angle := Some 0, current_action := Some 0,
         closest_obj_front_ang := Some 0, closest_obj_front_dist := Some 2,
         heap := [FollowObject 0.4 0.6 0.04 False 1 False]\<rparr>"
  have h1: "(0::nat) < length (heap ?w)" by simp
  have h2: "heap ?w ! 0 = FollowObject 0.4 0.6 0.04 False 1 False" by simp
  have h3: "angle ?w = Some 0" by simp
  have h4: "closest_obj_front_ang ?w = Some 0" by simp
  have h5: "closest_obj_front_dist ?w = Some 2" by simp
  have h6: "current_action ?w = Some 0 \<and> \<not> False" by simp
  from FollowObject_act_done [OF h1 h2 h3 h4 h5, of id "\<lambda>x1 x2 y1 y2. \<bar>x2 - x1\<bar> + \<bar>y2 - y1\<bar>"] h6
  show ?thesis by blast
qed

subsection \<open>\<open>WallFollow\<close> and the mission flag\<close>

lemma WallFollow_init_consts:
  "WallFollow_init rectify st = Inr obj \<Longrightarrow>
   \<exists>cw ta. obj = WallFollow 0.9 1.1 0.04 cw ta False"
  by (auto simp: WallFollow_init_def Let_def split: option.splits)

text \<open>
  Claim C7: a step of a \<open>WallFollow\<close> object, whose bounds and tolerance are the ones its
  constructor assigns (\<open>WallFollow_init_consts\<close>). After the step \<open>meter\<close> is true when
  the angular error is at most 0.04 and the forward distance lies in \<open>[0.9, 1.1]\<close>; in
  every other case, in particular when only one of the two holds, \<open>meter\<close> keeps the
  value it had.
\<close>

theorem WallFollow_act_meter:
  assumes "self < length (heap w)"
    and "heap w ! self = WallFollow 0.9 1.1 0.04 cw ta d"
    and "angle w = Some a"
    and "closest_obj_front_ang w = Some fa"
    and "closest_obj_front_dist w = Some fd"
  shows "\<exists>w'. WallFollow_act rectify self w = Inr w' \<and>
           meter w' = (if \<bar>ta - a\<bar> \<le> 0.04 \<and> 0.9 \<le> fd \<and> fd \<le> 1.1 then True else meter w)"
  using assms
  by (auto simp: WallFollow_act_def Let_def publish_simps mark_done_simps)

theorem WallFollow_act_meter_witness:
  "\<exists>w'. WallFollow_act id 0
      (TurtlebotState_init\<lparr>angle := Some 0,
         closest_obj_front_ang := Some 0, closest_obj_front_dist := Some 1,
         heap := [WallFollow 0.9 1.1 0.04 False 0 False]\<rparr>) = Inr w'
     \<and> meter w'"
proof -
  let ?w = "TurtlebotState_init\<lparr>angle := Some 0,
         closest_obj_front_ang := Some 0, closest_obj_front_dist := Some 1,
         heap := [WallFollow 0.9 1.1 0.04 False 0 False]\<rparr>"
  have h1: "(0::nat) < length (heap ?w)" by simp
  have h2: "heap ?w ! 0 = WallFollow 0.9 1.1 0.04 False 0 False" by simp
  have h3: "angle ?w = Some 0" by simp
  have h4: "closest_obj_front_ang ?w = Some 0" by simp
  have h5: "closest_obj_front_dist ?w = Some 1" by simp
  from WallFollow_act_meter [OF h1 h2 h3 h4 h5, of id]
  show ?thesis by simp
qed

subsection \<open>Who replaces the active behaviour\<close>

lemma Turn_act_current_action:
  "Turn_act self w = Inr w' \<Longrightarrow> current_action w' = current_action w"
  by (auto simp: Turn_act_def Let_def publish_simps mark_done_simps
      split: option.splits if_splits)

lemma Drive_act_current_action:
  "Drive_act euclid self w = Inr w' \<Longrightarrow> current_action w' = current_action w"
  by (auto simp: Drive_act_def Let_def publish_simps mark_done_simps
      split: option.splits if_splits)

lemma FollowObject_act_current_action:
  "FollowObject_act rectify self w = Inr w' \<Longrightarrow> current_action w' = current_action w"
  by (auto simp: FollowObject_act_def Let_def publish_simps mark_done_simps
      split: option.splits if_splits)

lemma WallFollow_act_current_action:
  "WallFollow_act rectify self w = Inr w' \<Longrightarrow> current_action w' = current_action w"
  by (auto simp: WallFollow_act_def Let_def publish_simps mark_done_simps
      split: option.splits if_splits)

lemma TurnToObject_act_installs:
  assumes "TurnToObject_act rectify self w = Inr w'" and "self < length (heap w)"
  shows "current_action w' = Some (length (heap w))
         \<and> (\<exists>cw ta. heap w' ! length (heap w) = Turn cw ta False)"
proof -
  from assms(1) obtain turn where t: "Turn_init rectify w (rectify (the (closest_obj_ang w))) = Inr turn"
    and w': "w' = mark_done self ((w\<lparr>heap := heap w @ [turn]\<rparr>)\<lparr>current_action := Some (length (heap w))\<rparr>)"
    by (auto simp: TurnToObject_act_def Let_def alloc_def split: option.splits sum.splits)
  from t obtain cw ta where turn: "turn = Turn cw ta False"
    by (auto simp: Turn_init_def Let_def split: option.splits)
  have "heap w' ! length (heap w) = turn"
    using assms(2) unfolding w' by (simp add: mark_done_def)
  with turn w' show ?thesis by (simp add: mark_done_simps)
qed

text \<open>
  Claim C8, as the code has it: among the \<open>act\<close> methods only that of \<open>TurnToObject\<close>
  assigns \<open>state.current_action\<close>, and it installs a newly constructed \<open>Turn\<close>, not done.
  The steps of \<open>Turn\<close>, \<open>Drive\<close>, \<open>FollowObject\<close> and \<open>WallFollow\<close> leave the reference
  as it is: a fresh \<open>WallFollow\<close> is installed by the loops of \<open>main\<close>
  (\<open>tick_wall_follow_rearm\<close> below), not by a behaviour.
\<close>

theorem act_current_action:
  assumes "act rectify euclid self w = Inr w'" and "self < length (heap w)"
  shows "case heap w ! self of
           TurnToObject _ \<Rightarrow>
             current_action w' = Some (length (heap w))
             \<and> (\<exists>cw ta. heap w' ! length (heap w) = Turn cw ta False)
         | _ \<Rightarrow> current_action w' = current_action w"
proof (cases "heap w ! self")
  case (Turn x11 x12 x13)
  with assms show ?thesis by (simp add: act_def Turn_act_current_action)
next
  case (Drive x21 x22 x23 x24 x25)
  with assms show ?thesis by (simp add: act_def Drive_act_current_action)
next
  case (TurnToObject x3)
  with assms TurnToObject_act_installs [of rectify self w w'] show ?thesis
    by (simp add: act_def)
next
  case (FollowObject x41 x42 x43 x44 x45 x46)
  with assms show ?thesis by (simp add: act_def FollowObject_act_current_action)
next
  case (WallFollow x51 x52 x53 x54 x55 x56)
  with assms show ?thesis by (simp add: act_def WallFollow_act_current_action)
qed

theorem act_current_action_witness:
  "\<exists>w'. act id (\<lambda>x1 x2 y1 y2. \<bar>x2 - x1\<bar> + \<bar>y2 - y1\<bar>) 0
     (TurtlebotState_init\<lparr>angle := Some 0, current_action := Some 0,
        closest_obj_ang := Some 1, closest_obj_front_ang := Some 0,
        heap := [TurnToObject False]\<rparr>) = Inr w'
     \<and> current_action w' = Some 1 \<and> (\<exists>cw ta. heap w' ! 1 = Turn cw ta False)"
proof -
  let ?w = "TurtlebotState_init\<lparr>angle := Some 0, current_action := Some 0,
        closest_obj_ang := Some 1, closest_obj_front_ang := Some 0,
        heap := [TurnToObject False]\<rparr>"
  let ?w' = "TurtlebotState_init\<lparr>angle := Some 0, current_action := Some 1,
        closest_obj_ang := Some 1, closest_obj_front_ang := Some 0,
        heap := [TurnToObject True, Turn False 1 False]\<rparr>"
  have h1: "act id (\<lambda>x1 x2 y1 y2. \<bar>x2 - x1\<bar> + \<bar>y2 - y1\<bar>) 0 ?w = Inr ?w'"
    by (simp add: act_def TurnToObject_act_def Turn_init_def alloc_def mark_done_def
        TurtlebotState_init_def)
  have h2: "(0::nat) < length (heap ?w)" by simp
  from act_current_action [OF h1 h2] h1 show ?thesis by simp
qed

text \<open>
  The step of a \<open>TurnToObject\<close> that is the active behaviour: afterwards the active
  behaviour is the \<open>Turn\<close> object it has just constructed.
\<close>

theorem act_current_action_counterexample:
  "TurnToObject_act id 0
     (TurtlebotState_init\<lparr>angle := Some 0, current_action := Some 0,
        closest_obj_ang := Some 1, closest_obj_front_ang := Some 0,
        heap := [TurnToObject False]\<rparr>)
   = Inr (TurtlebotState_init\<lparr>angle := Some 0, current_action := Some 1,
        closest_obj_ang := Some 1, closest_obj_front_ang := Some 0,
        heap := [TurnToObject True, Turn False 1 False]\<rparr>)"
  by (simp add: TurnToObject_act_def Turn_init_def alloc_def mark_done_def
      TurtlebotState_init_def)

lemma tick_wall_follow_rearm:
  assumes "tick_wall_follow rectify euclid w = Inr (c, w')"
    and "current_action w = Some r" and "done_flag (heap w ! r)"
  shows "if meter w then c = Break \<and> w' = w
         else c = Continue \<and> current_action w' = Some (length (heap w))
              \<and> (\<exists>cw ta. heap w' ! length (heap w) = WallFollow 0.9 1.1 0.04 cw ta False)"
  using assms
  by (auto simp: tick_wall_follow_def install_def alloc_def WallFollow_init_def Let_def
      split: option.splits sum.splits if_splits)

subsection \<open>The searches on lists\<close>

lemma foldl_min_eq:
  "foldl (\<lambda>cur item. if item < cur then item else cur) (x::real) xs = Min (set (x # xs))"
proof (induction xs arbitrary: x)
  case Nil
  show ?case by simp
next
  case (Cons y ys)
  have "Min (set ((if y < x then y else x) # ys)) = Min (set (x # y # ys))"
  proof (cases "ys = []")
    case True
    then show ?thesis by (auto simp: min_def)
  next
    case False
    then have "Min (insert a (set ys)) = min a (Min (set ys))" for a :: real
      by (simp add: Min_insert)
    moreover have "Min (insert x (insert y (set ys))) = min x (min y (Min (set ys)))"
      using False by (simp add: Min_insert)
    ultimately show ?thesis by (auto simp: min_def)
  qed
  with Cons.IH [of "if y < x then y else x"] show ?case by simp
qed

lemma py_min_Inr:
  "xs \<noteq> [] \<Longrightarrow> py_min xs = Inr (Min (set xs))"
  by (cases xs) (simp_all add: foldl_min_eq del: set_simps)

lemma py_min_Inl: "py_min xs = Inl e \<longleftrightarrow> xs = [] \<and> e = ValueError"
  by (cases xs) auto

lemma py_index_mem:
  "v \<in> set xs \<Longrightarrow>
   \<exists>k. py_index xs v = Inr k \<and> k < length xs \<and> xs ! k = v \<and> (\<forall>j<k. xs ! j \<noteq> v)"
proof (induction xs)
  case Nil
  then show ?case by simp
next
  case (Cons x xs)
  show ?case
  proof (cases "x = v")
    case True
    then show ?thesis by simp
  next
    case False
    with Cons.prems have "v \<in> set xs" by simp
    from Cons.IH [OF this] obtain k where k: "py_index xs v = Inr k" "k < length xs"
      "xs ! k = v" "\<forall>j<k. xs ! j \<noteq> v" by blast
    have "\<forall>j<Suc k. (x # xs) ! j \<noteq> v"
      using False k(4) by (auto simp: less_Suc_eq_0_disj)
    with False k show ?thesis by simp
  qed
qed

lemma py_index_Inr:
  "py_index xs v = Inr k \<Longrightarrow> k < length xs \<and> xs ! k = v \<and> (\<forall>j<k. xs ! j \<noteq> v)"
proof (induction xs arbitrary: k)
  case Nil
  then show ?case by simp
next
  case (Cons x xs)
  show ?case
  proof (cases "x = v")
    case True
    with Cons.prems show ?thesis by simp
  next
    case False
    with Cons.prems obtain k' where k': "py_index xs v = Inr k'" "k = Suc k'"
      by (auto split: sum.splits)
    from Cons.IH [OF k'(1)] False k'(2) show ?thesis
      by (auto simp: less_Suc_eq_0_disj)
  qed
qed

text \<open>
  What \<open>min(i for i in xs if i > 0.0)\<close> returns when some entry is positive: the value
  that is an entry, is positive, and is below every positive entry.
\<close>

lemma min_pos_props:
  assumes "filter (\<lambda>i. i > 0) xs \<noteq> []"
  shows "py_min (filter (\<lambda>i. i > 0) xs) = Inr m \<longleftrightarrow>
         (m \<in> set xs \<and> 0 < m \<and> (\<forall>x\<in>set xs. 0 < x \<longrightarrow> m \<le> x))"
proof -
  let ?ps = "filter (\<lambda>i. i > 0) xs"
  have fin: "finite (set ?ps)" and ne: "set ?ps \<noteq> {}"
    using assms by (simp_all del: set_filter)
  have eq: "py_min ?ps = Inr (Min (set ?ps))" by (rule py_min_Inr [OF assms])
  have in1: "Min (set ?ps) \<in> set ?ps" by (rule Min_in [OF fin ne])
  show ?thesis
  proof
    assume "py_min ?ps = Inr m"
    with eq have m: "m = Min (set ?ps)" by simp
    have "\<forall>x\<in>set xs. 0 < x \<longrightarrow> m \<le> x"
      unfolding m using fin by (auto intro: Min_le)
    with in1 m show "m \<in> set xs \<and> 0 < m \<and> (\<forall>x\<in>set xs. 0 < x \<longrightarrow> m \<le> x)" by auto
  next
    assume r: "m \<in> set xs \<and> 0 < m \<and> (\<forall>x\<in>set xs. 0 < x \<longrightarrow> m \<le> x)"
    then have "m \<in> set ?ps" by simp
    then have "Min (set ?ps) \<le> m" using fin by (auto intro: Min_le)
    moreover have "m \<le> Min (set ?ps)" using r in1 by auto
    ultimately show "py_min ?ps = Inr m" using eq by simp
  qed
qed

lemma filter_pos_empty: "filter (\<lambda>i. i > (0::real)) xs = [] \<longleftrightarrow> (\<forall>x\<in>set xs. \<not> 0 < x)"
  by (simp add: filter_empty_conv)

lemma slice_0: "slice 0 hi array = take hi array"
  by (simp add: slice_def)

lemma length_slice: "length (slice lo hi array) = min hi (length array) - lo"
  by (simp add: slice_def min.commute)

lemma nth_slice:
  assumes "j < length (slice lo hi array)"
  shows "slice lo hi array ! j = array ! (lo + j)"
proof -
  from assms have b: "lo + j < hi" "lo + j < length array" "lo \<le> length (take hi array)"
    by (auto simp: length_slice)
  have "slice lo hi array ! j = take hi array ! (lo + j)"
    unfolding slice_def using b(3) by (rule nth_drop)
  also have "\<dots> = array ! (lo + j)" using b(1) by (rule nth_take)
  finally show ?thesis .
qed

lemma set_slice:
  "set (slice lo hi array) = {array ! i | i. lo \<le> i \<and> i < hi \<and> i < length array}"
proof (rule set_eqI, rule iffI)
  fix v assume "v \<in> set (slice lo hi array)"
  then obtain j where j: "j < length (slice lo hi array)" "slice lo hi array ! j = v"
    by (auto simp: in_set_conv_nth)
  then have "array ! (lo + j) = v" by (simp add: nth_slice)
  moreover have "lo + j < hi" "lo + j < length array" using j(1) by (simp_all add: length_slice)
  ultimately show "v \<in> {array ! i | i. lo \<le> i \<and> i < hi \<and> i < length array}"
    by (intro CollectI exI [of _ "lo + j"]) simp
next
  fix v assume "v \<in> {array ! i | i. lo \<le> i \<and> i < hi \<and> i < length array}"
  then obtain i where i: "v = array ! i" "lo \<le> i" "i < hi" "i < length array" by blast
  then have "i - lo < length (slice lo hi array)" by (simp add: length_slice)
  moreover from this i have "slice lo hi array ! (i - lo) = v" by (simp add: nth_slice)
  ultimately show "v \<in> set (slice lo hi array)" by (auto simp: in_set_conv_nth)
qed

lemma findObj360_Inl:
  "\<forall>x\<in>set array. \<not> 0 < x \<Longrightarrow> findObj360 array = Inl ValueError"
  by (simp add: findObj360_def filter_pos_empty [THEN iffD2])

lemma findObj360_Inr:
  assumes "\<exists>x\<in>set array. 0 < x"
  shows "\<exists>k v. findObj360 array = Inr (k, v) \<and> k < length array \<and> array ! k = v \<and> 0 < v
           \<and> (\<forall>x\<in>set array. 0 < x \<longrightarrow> v \<le> x) \<and> (\<forall>j<k. array ! j \<noteq> v)"
proof -
  have ne: "filter (\<lambda>i. i > 0) array \<noteq> []" using assms by (simp add: filter_pos_empty)
  then obtain m where m: "py_min (filter (\<lambda>i. i > 0) array) = Inr m"
    by (auto simp: py_min_Inr)
  with min_pos_props [OF ne, of m]
  have p: "m \<in> set array" "0 < m" "\<forall>x\<in>set array. 0 < x \<longrightarrow> m \<le> x" by simp_all
  from py_index_mem [OF p(1)] obtain k where k: "py_index array m = Inr k" "k < length array"
    "array ! k = m" "\<forall>j<k. array ! j \<noteq> m" by blast
  have "findObj360 array = Inr (k, m)" using m k(1) by (simp add: findObj360_def)
  with k p show ?thesis by blast
qed

lemma findObjFront_Inl_left:
  "\<forall>x\<in>set (slice 0 45 array). \<not> 0 < x \<Longrightarrow> findObjFront array = Inl ValueError"
  by (simp add: findObjFront_def filter_pos_empty [THEN iffD2])

lemma findObjFront_Inl_right:
  assumes "\<forall>x\<in>set (slice 315 360 array). \<not> 0 < x"
  shows "findObjFront array = Inl ValueError"
proof (cases "py_min (filter (\<lambda>i. i > 0) (slice 0 45 array))")
  case (Inl e)
  then show ?thesis by (simp add: findObjFront_def py_min_Inl)
next
  case (Inr temp)
  then show ?thesis using assms
    by (simp add: findObjFront_def filter_pos_empty [THEN iffD2])
qed

text \<open>A result of \<open>findObjFront\<close> comes from the comparison of the two minima.\<close>

lemma findObjFront_Inr:
  assumes "findObjFront array = Inr (k, v)"
  shows "\<exists>m m2. py_min (filter (\<lambda>i. i > 0) (slice 0 45 array)) = Inr m
           \<and> py_min (filter (\<lambda>i. i > 0) (slice 315 360 array)) = Inr m2
           \<and> (if m \<le> m2 then v = m \<and> py_index (slice 0 45 array) m = Inr k
               else v = m2 \<and> 315 \<le> k \<and> py_index (slice 315 360 array) m2 = Inr (k - 315))"
  using assms
  by (auto simp: findObjFront_def split: sum.splits if_splits)

lemma findObjFront_success:
  assumes a: "m \<in> set (slice 0 45 array)" "0 < m" "\<forall>x\<in>set (slice 0 45 array). 0 < x \<longrightarrow> m \<le> x"
    and b: "m2 \<in> set (slice 315 360 array)" "0 < m2"
      "\<forall>x\<in>set (slice 315 360 array). 0 < x \<longrightarrow> m2 \<le> x"
  shows "py_min (filter (\<lambda>i. i > 0) (slice 0 45 array)) = Inr m"
    and "py_min (filter (\<lambda>i. i > 0) (slice 315 360 array)) = Inr m2"
proof -
  have "filter (\<lambda>i. i > 0) (slice 0 45 array) \<noteq> []"
    using a(1,2) by (auto simp: filter_pos_empty)
  from min_pos_props [OF this, of m] a
  show "py_min (filter (\<lambda>i. i > 0) (slice 0 45 array)) = Inr m" by simp
  have "filter (\<lambda>i. i > 0) (slice 315 360 array) \<noteq> []"
    using b(1,2) by (auto simp: filter_pos_empty)
  from min_pos_props [OF this, of m2] b
  show "py_min (filter (\<lambda>i. i > 0) (slice 315 360 array)) = Inr m2" by simp
qed

lemma findObjFront_tie:
  assumes a: "m \<in> set (slice 0 45 array)" "0 < m" "\<forall>x\<in>set (slice 0 45 array). 0 < x \<longrightarrow> m \<le> x"
    and b: "m \<in> set (slice 315 360 array)"
      "\<forall>x\<in>set (slice 315 360 array). 0 < x \<longrightarrow> m \<le> x"
  shows "\<exists>k. findObjFront array = Inr (k, m) \<and> k < 45"
proof -
  note mins = findObjFront_success [OF a b(1) a(2) b(2)]
  from py_index_mem [OF a(1)] obtain k where
    k: "py_index (slice 0 45 array) m = Inr k" "k < length (slice 0 45 array)" by blast
  have "findObjFront array = Inr (k, m)"
    using mins k(1) by (simp add: findObjFront_def)
  moreover have "k < 45" using k(2) by (simp add: length_slice)
  ultimately show ?thesis by blast
qed

lemma findObjFront_first_index:
  assumes "findObjFront array = Inr (k, v)"
  shows "k < length array \<and> array ! k = v \<and>
       (if k < 315 then k < 45 \<and> (\<forall>j<k. array ! j \<noteq> v)
        else k < 360 \<and> (\<forall>j. 315 \<le> j \<and> j < k \<longrightarrow> array ! j \<noteq> v))"
proof -
  from findObjFront_Inr [OF assms] obtain m m2 where
    c: "if m \<le> m2 then v = m \<and> py_index (slice 0 45 array) m = Inr k
        else v = m2 \<and> 315 \<le> k \<and> py_index (slice 315 360 array) m2 = Inr (k - 315)"
    by blast
  show ?thesis
  proof (cases "m \<le> m2")
    case True
    with c have i: "py_index (slice 0 45 array) v = Inr k" by simp
    from py_index_Inr [OF i] have
      k: "k < length (slice 0 45 array)" "slice 0 45 array ! k = v"
      and f: "\<forall>j<k. slice 0 45 array ! j \<noteq> v" by simp_all
    from k(1) have kb: "k < 45" "k < length array" by (simp_all add: length_slice)
    have "array ! k = v" using nth_slice [OF k(1)] k(2) by simp
    moreover have "\<forall>j<k. array ! j \<noteq> v"
    proof (intro allI impI)
      fix j assume "j < k"
      then have "j < length (slice 0 45 array)" using k(1) by simp
      from nth_slice [OF this] have e: "slice 0 45 array ! j = array ! j" by simp
      from f \<open>j < k\<close> have "slice 0 45 array ! j \<noteq> v" by blast
      then show "array ! j \<noteq> v" unfolding e .
    qed
    ultimately show ?thesis using kb by simp
  next
    case False
    with c have ge: "315 \<le> k" and i: "py_index (slice 315 360 array) v = Inr (k - 315)"
      by simp_all
    from py_index_Inr [OF i] have
      k: "k - 315 < length (slice 315 360 array)" "slice 315 360 array ! (k - 315) = v"
      and f: "\<forall>j<k - 315. slice 315 360 array ! j \<noteq> v" by simp_all
    from k(1) ge have kb: "k < 360" "k < length array" by (simp_all add: length_slice)
    have "array ! k = v" using nth_slice [OF k(1)] k(2) ge by simp
    moreover have "\<forall>j. 315 \<le> j \<and> j < k \<longrightarrow> array ! j \<noteq> v"
    proof (intro allI impI)
      fix j assume j: "315 \<le> j \<and> j < k"
      then have l: "j - 315 < length (slice 315 360 array)" using k(1) by linarith
      from j have "j - 315 < k - 315" by linarith
      with f have n: "slice 315 360 array ! (j - 315) \<noteq> v" by blast
      from j have "315 + (j - 315) = j" by linarith
      with nth_slice [OF l] have e: "slice 315 360 array ! (j - 315) = array ! j" by simp
      from n show "array ! j \<noteq> v" unfolding e .
    qed
    ultimately show ?thesis using kb ge by simp
  qed
qed


subsection \<open>The forward-cone search with one empty half\<close>

text \<open>
  Claim C3 at a scan of 360 readings whose only positive reading is at index 315, inside
  the searched range of \<open>findObjFront\<close>: \<open>findObj360\<close> returns that reading, while
  \<open>findObjFront\<close> raises \<open>ValueError\<close> because the slice \<open>[0:45]\<close> alone holds no
  positive reading.
\<close>

theorem findObjFront_one_sided:
  "length (replicate 315 0 @ [1] @ replicate 44 (0::real)) = 360
   \<and> (replicate 315 0 @ [1] @ replicate 44 (0::real)) ! 315 = 1
   \<and> findObj360 (replicate 315 0 @ [1] @ replicate 44 0) = Inr (315, 1)
   \<and> findObjFront (replicate 315 0 @ [1] @ replicate 44 0) = Inl ValueError"
proof -
  have "findObj360 (replicate 315 0 @ [1] @ replicate 44 0) = Inr (315, 1)" by code_simp
  moreover have "findObjFront (replicate 315 0 @ [1] @ replicate 44 0) = Inl ValueError"
    by code_simp
  moreover have "(replicate 315 0 @ [1] @ replicate 44 (0::real)) ! 315 = 1"
    by (simp add: nth_append)
  ultimately show ?thesis by simp
qed


subsection \<open>A scan update that fails half-way\<close>

text \<open>
  Claim C9: when the scan holds a positive reading somewhere in indices 0 to 359 and none
  in indices 0 to 44, \<open>update_scan\<close> assigns the full-sweep bearing, then the forward-cone
  search raises \<open>ValueError\<close>, and the handler ends there: the forward-cone bearing and
  distance and \<open>ready\<close> are as before, only \<open>closest_obj_ang\<close> has changed.
\<close>

theorem update_scan_partial:
  assumes "\<exists>i<length ranges. i < 360 \<and> 0 < ranges ! i"
    and "\<forall>i<length ranges. i < 45 \<longrightarrow> \<not> 0 < ranges ! i"
  shows "\<exists>k v. findObj360 ranges = Inr (k, v) \<and> findObjFront ranges = Inl ValueError
      \<and> update_scan deg ranges w = (Some ValueError, w\<lparr>closest_obj_ang := Some (deg (real k))\<rparr>)
      \<and> closest_obj_front_ang (snd (update_scan deg ranges w)) = closest_obj_front_ang w
      \<and> closest_obj_front_dist (snd (update_scan deg ranges w)) = closest_obj_front_dist w
      \<and> ready (snd (update_scan deg ranges w)) = ready w"
proof -
  from assms(1) obtain i where "i < length ranges" "0 < ranges ! i" by blast
  then have "ranges ! i \<in> set ranges \<and> 0 < ranges ! i" by simp
  then have "\<exists>x\<in>set ranges. 0 < x" by blast
  from findObj360_Inr [OF this] obtain k v where a: "findObj360 ranges = Inr (k, v)" by blast
  have "\<forall>x\<in>set (slice 0 45 ranges). \<not> 0 < x"
    using assms(2) by (auto simp: set_slice)
  from findObjFront_Inl_left [OF this] have b: "findObjFront ranges = Inl ValueError" .
  have u: "update_scan deg ranges w
             = (Some ValueError, w\<lparr>closest_obj_ang := Some (deg (real k))\<rparr>)"
    by (simp add: update_scan_def a b)
  from a b u show ?thesis by simp
qed


theorem update_scan_partial_witness:
  "update_scan (\<lambda>d. d * pi / 180) (replicate 315 0 @ [1] @ replicate 44 0)
     (TurtlebotState_init\<lparr>closest_obj_front_ang := Some 0\<rparr>)
   = (Some ValueError,
      TurtlebotState_init\<lparr>closest_obj_front_ang := Some 0,
                           closest_obj_ang := Some (315 * pi / 180)\<rparr>)"
proof -
  let ?r = "replicate 315 0 @ [1] @ replicate 44 (0::real)"
  have "315 < length ?r \<and> (315::nat) < 360 \<and> 0 < ?r ! 315" by (simp add: nth_append)
  then have h1: "\<exists>i<length ?r. i < 360 \<and> 0 < ?r ! i" by blast
  have h2: "\<forall>i<length ?r. i < 45 \<longrightarrow> \<not> 0 < ?r ! i" by (simp add: nth_append)
  have e: "findObj360 ?r = Inr (315, 1)" by code_simp
  from update_scan_partial [OF h1 h2, of "\<lambda>d. d * pi / 180"
      "TurtlebotState_init\<lparr>closest_obj_front_ang := Some 0\<rparr>"] e
  show ?thesis by (simp add: TurtlebotState_init_def)
qed

subsection \<open>Ties in the forward-cone search\<close>

text \<open>
  The value \<open>findObjFront\<close> returns is positive and is the least positive reading of the
  half of the cone its index lies in; it is at most every positive reading of the other
  half, and strictly below them when the index comes from \<open>[315:360]\<close>.
\<close>

lemma py_min_Inr_nonempty: "py_min xs = Inr m \<Longrightarrow> xs \<noteq> []"
  by (cases xs) simp_all

lemma findObjFront_value:
  assumes "findObjFront array = Inr (k, v)"
  shows "0 < v \<and>
       (if k < 315
        then (\<forall>x\<in>set (slice 0 45 array). 0 < x \<longrightarrow> v \<le> x)
             \<and> (\<forall>x\<in>set (slice 315 360 array). 0 < x \<longrightarrow> v \<le> x)
        else (\<forall>x\<in>set (slice 315 360 array). 0 < x \<longrightarrow> v \<le> x)
             \<and> (\<forall>x\<in>set (slice 0 45 array). 0 < x \<longrightarrow> v < x))"
proof -
  from findObjFront_Inr [OF assms] obtain m m2 where
    a: "py_min (filter (\<lambda>i. i > 0) (slice 0 45 array)) = Inr m"
    and b: "py_min (filter (\<lambda>i. i > 0) (slice 315 360 array)) = Inr m2"
    and c: "if m \<le> m2 then v = m \<and> py_index (slice 0 45 array) m = Inr k
        else v = m2 \<and> 315 \<le> k \<and> py_index (slice 315 360 array) m2 = Inr (k - 315)"
    by blast
  from min_pos_props [OF py_min_Inr_nonempty [OF a], of m] a
  have pa: "0 < m" "\<forall>x\<in>set (slice 0 45 array). 0 < x \<longrightarrow> m \<le> x" by simp_all
  from min_pos_props [OF py_min_Inr_nonempty [OF b], of m2] b
  have pb: "0 < m2" "\<forall>x\<in>set (slice 315 360 array). 0 < x \<longrightarrow> m2 \<le> x" by simp_all
  show ?thesis
  proof (cases "m \<le> m2")
    case True
    with c have v: "v = m" and i: "py_index (slice 0 45 array) m = Inr k" by simp_all
    from py_index_Inr [OF i] have "k < 45" by (simp add: length_slice)
    then have k: "k < 315" by simp
    have "\<forall>x\<in>set (slice 315 360 array). 0 < x \<longrightarrow> m \<le> x"
      using pb(2) True by fastforce
    with pa k show ?thesis unfolding v by simp
  next
    case False
    with c have v: "v = m2" and k: "\<not> k < 315" by simp_all
    have "\<forall>x\<in>set (slice 0 45 array). 0 < x \<longrightarrow> m2 < x"
      using pa(2) False by fastforce
    with pb k show ?thesis unfolding v by simp
  qed
qed

text \<open>
  Claim C10: when the least positive reading of the slice \<open>[0:45]\<close> is also the least
  positive reading of the slice \<open>[315:360]\<close>, \<open>findObjFront\<close> returns an index below 45.
  And whatever it returns, the value is the least positive reading of the sub-range the
  index lies in (0 to 44, or 315 to 359), and the index is the first position of that
  sub-range holding it: the smallest index attaining the minimum of the chosen sub-range.
  The sub-range 315 to 359 is chosen only when its minimum is strictly below every
  positive reading of 0 to 44.
\<close>

theorem findObjFront_tie_break:
  "(m \<in> set (slice 0 45 array) \<and> 0 < m
      \<and> (\<forall>x\<in>set (slice 0 45 array). 0 < x \<longrightarrow> m \<le> x)
      \<and> m \<in> set (slice 315 360 array)
      \<and> (\<forall>x\<in>set (slice 315 360 array). 0 < x \<longrightarrow> m \<le> x)
     \<longrightarrow> (\<exists>k. findObjFront array = Inr (k, m) \<and> k < 45))
   \<and> (findObjFront array = Inr (k, v) \<longrightarrow>
        k < length array \<and> array ! k = v \<and> 0 < v \<and>
        (if k < 315
         then k < 45 \<and> (\<forall>j<k. array ! j \<noteq> v)
              \<and> (\<forall>x\<in>set (slice 0 45 array). 0 < x \<longrightarrow> v \<le> x)
              \<and> (\<forall>x\<in>set (slice 315 360 array). 0 < x \<longrightarrow> v \<le> x)
         else k < 360 \<and> (\<forall>j. 315 \<le> j \<and> j < k \<longrightarrow> array ! j \<noteq> v)
              \<and> (\<forall>x\<in>set (slice 315 360 array). 0 < x \<longrightarrow> v \<le> x)
              \<and> (\<forall>x\<in>set (slice 0 45 array). 0 < x \<longrightarrow> v < x)))"
proof (intro conjI impI)
  assume "m \<in> set (slice 0 45 array) \<and> 0 < m
      \<and> (\<forall>x\<in>set (slice 0 45 array). 0 < x \<longrightarrow> m \<le> x)
      \<and> m \<in> set (slice 315 360 array)
      \<and> (\<forall>x\<in>set (slice 315 360 array). 0 < x \<longrightarrow> m \<le> x)"
  then show "\<exists>k. findObjFront array = Inr (k, m) \<and> k < 45"
    using findObjFront_tie [of m array] by blast
next
  assume r: "findObjFront array = Inr (k, v)"
  from findObjFront_first_index [OF r] show "k < length array" by simp
  from findObjFront_first_index [OF r] show "array ! k = v" by simp
  from findObjFront_value [OF r] show "0 < v" by simp
  show "if k < 315
         then k < 45 \<and> (\<forall>j<k. array ! j \<noteq> v)
              \<and> (\<forall>x\<in>set (slice 0 45 array). 0 < x \<longrightarrow> v \<le> x)
              \<and> (\<forall>x\<in>set (slice 315 360 array). 0 < x \<longrightarrow> v \<le> x)
         else k < 360 \<and> (\<forall>j. 315 \<le> j \<and> j < k \<longrightarrow> array ! j \<noteq> v)
              \<and> (\<forall>x\<in>set (slice 315 360 array). 0 < x \<longrightarrow> v \<le> x)
              \<and> (\<forall>x\<in>set (slice 0 45 array). 0 < x \<longrightarrow> v < x)"
  proof (cases "k < 315")
    case True
    with findObjFront_first_index [OF r] findObjFront_value [OF r] show ?thesis by simp
  next
    case False
    with findObjFront_first_index [OF r] findObjFront_value [OF r] show ?thesis by simp
  qed
qed

theorem findObjFront_tie_break_witness:
  "(2::real) \<in> set (slice 0 45 ([0, 2, 2] @ replicate 312 0 @ [2, 2]))
   \<and> list_all (\<lambda>x. 0 < x \<longrightarrow> (2::real) \<le> x)
         (slice 0 45 ([0, 2, 2] @ replicate 312 0 @ [2, 2]))
   \<and> (2::real) \<in> set (slice 315 360 ([0, 2, 2] @ replicate 312 0 @ [2, 2]))
   \<and> list_all (\<lambda>x. 0 < x \<longrightarrow> (2::real) \<le> x)
         (slice 315 360 ([0, 2, 2] @ replicate 312 0 @ [2, 2]))
   \<and> findObjFront ([0, 2, 2] @ replicate 312 0 @ [2, 2]) = Inr (1, 2)
   \<and> ([0, 2, 2] @ replicate 312 0 @ [2, 2]) ! 1 = (2::real)
   \<and> ([0, 2, 2] @ replicate 312 0 @ [2, 2]) ! 0 \<noteq> (2::real)"
proof -
  let ?a = "[0, 2, 2] @ replicate 312 0 @ [2, 2 :: real]"
  have s1: "slice 0 45 ?a = [0, 2, 2] @ replicate 42 0" by (simp add: slice_def)
  have s2: "slice 315 360 ?a = [2, 2]" by (simp add: slice_def)
  have h1: "2 \<in> set (slice 0 45 ?a)" unfolding s1 by simp
  have h2: "\<forall>x\<in>set (slice 0 45 ?a). 0 < x \<longrightarrow> 2 \<le> x" unfolding s1 by auto
  have h3: "2 \<in> set (slice 315 360 ?a)" unfolding s2 by simp
  have h4: "\<forall>x\<in>set (slice 315 360 ?a). 0 < x \<longrightarrow> 2 \<le> x" unfolding s2 by simp
  have r: "findObjFront ?a = Inr (1, 2)" by code_simp
  from findObjFront_tie_break [of 2 ?a 1 2] h1 h2 h3 h4 r
  have "?a ! 1 = 2 \<and> ?a ! 0 \<noteq> 2" by simp
  with h1 h2 h3 h4 r show ?thesis by (simp add: list_all_iff)
qed

end
